theory Spec2Isabelle
  imports
    Main
    "HOL-Library.Word"
    "HOL-Library.Signed_Division"
    "HOL-Library.Monad_Syntax"
begin

section \<open>Cell vertexes of the H3 grid (vertex.c)\<close>

text \<open>
  A shallow embedding of \<^verbatim>\<open>src/h3lib/lib/vertex.c\<close>. C \<^verbatim>\<open>int\<close> values are
  integers, and \<^verbatim>\<open>%\<close> is the truncating remainder \<open>smod\<close>. An \<^verbatim>\<open>H3Index\<close>
  is an unsigned 64-bit word, compared as such. A function of the file returns
  \<open>None\<close> where the C program has no defined result: a read of the local
  \<^verbatim>\<open>dirFaces\<close> that no loop iteration assigned, or an array read outside the
  bounds of a table. \<^verbatim>\<open>vertexToPoint\<close>, which hands the owner and the vertex number
  to the floating-point boundary functions, is not part of the development.
\<close>

subsection \<open>Constants and types of the headers\<close>

type_synonym H3Index = "64 word"

text \<open>
  Modelled from the spec: the enumeration \<^verbatim>\<open>Direction\<close> (coordijk.h) is not part of
  the translated file. Its digits are 0..6, 0 the centre, 1 the K axis that a
  pentagon lacks, and one more reserved value, 7, is invalid. The numbering of the
  other axes is the one the two tables of vertex.c, which are inverse to each other,
  agree with. A direction is a natural number: the enumerators are not negative.
\<close>

type_synonym Direction = nat

definition CENTER_DIGIT :: Direction where "CENTER_DIGIT = 0"
definition K_AXES_DIGIT :: Direction where "K_AXES_DIGIT = 1"
definition J_AXES_DIGIT :: Direction where "J_AXES_DIGIT = 2"
definition JK_AXES_DIGIT :: Direction where "JK_AXES_DIGIT = 3"
definition I_AXES_DIGIT :: Direction where "I_AXES_DIGIT = 4"
definition IK_AXES_DIGIT :: Direction where "IK_AXES_DIGIT = 5"
definition IJ_AXES_DIGIT :: Direction where "IJ_AXES_DIGIT = 6"
definition INVALID_DIGIT :: Direction where "INVALID_DIGIT = 7"

text \<open>
  Modelled from the spec: the constants of constants.h, vertex.h and h3Index.h are
  not part of the translated file. A hexagon has 6 corners and a pentagon 5, there
  are 12 pentagon base cells, the sentinel for an invalid direction is no corner
  number (the header's value is -1), and "no vertex" is the null index 0.
\<close>

definition NUM_HEX_VERTS :: int where "NUM_HEX_VERTS = 6"
definition NUM_PENT_VERTS :: int where "NUM_PENT_VERTS = 5"
definition NUM_PENTAGONS :: nat where "NUM_PENTAGONS = 12"
definition INVALID_VERTEX_NUM :: int where "INVALID_VERTEX_NUM = - 1"
definition H3_NULL :: H3Index where "H3_NULL = 0"
definition H3_VERTEX_MODE :: int where "H3_VERTEX_MODE = 4"

definition DIRECTION_INDEX_OFFSET :: nat where "DIRECTION_INDEX_OFFSET = 2"

record FaceIJK =
  face :: int
  coord :: "int \<times> int \<times> int"

record PentagonDirectionFaces =
  baseCell :: int
  faces :: "int list"

subsection \<open>The functions of the other compilation units\<close>

text \<open>
  vertex.c calls these functions and macros of h3Index, baseCells, faceijk and
  algos; none of them is defined in the file, so they are parameters of the model,
  under their own names (without the leading underscore). \<open>h3NeighborRotations\<close>
  takes the value of its in-out argument \<^verbatim>\<open>rotations\<close> and returns the new one
  beside the neighbour.
\<close>

record h3env =
  h3IsPentagon :: "H3Index \<Rightarrow> bool"
  h3ToFaceIjk :: "H3Index \<Rightarrow> FaceIJK"
  h3GetBaseCell :: "H3Index \<Rightarrow> int"
  h3LeadingNonZeroDigit :: "H3Index \<Rightarrow> Direction"
  baseCellToFaceIjk :: "int \<Rightarrow> FaceIJK"
  baseCellToCCWrot60 :: "int \<Rightarrow> int \<Rightarrow> int"
  isBaseCellPentagon :: "int \<Rightarrow> bool"
  isBaseCellPolarPentagon :: "int \<Rightarrow> bool"
  h3NeighborRotations :: "H3Index \<Rightarrow> Direction \<Rightarrow> int \<Rightarrow> H3Index \<times> int"
  directionForNeighbor :: "H3Index \<Rightarrow> H3Index \<Rightarrow> Direction"
  H3_SET_MODE :: "H3Index \<Rightarrow> int \<Rightarrow> H3Index"
  H3_SET_RESERVED_BITS :: "H3Index \<Rightarrow> int \<Rightarrow> H3Index"

subsection \<open>Rotations of the vertex numbers\<close>

definition pentagonDirectionFaces :: "PentagonDirectionFaces list" where
  "pentagonDirectionFaces =
    [\<lparr>baseCell = 4, faces = [4, 0, 2, 1, 3]\<rparr>,
     \<lparr>baseCell = 14, faces = [6, 11, 2, 7, 1]\<rparr>,
     \<lparr>baseCell = 24, faces = [5, 10, 1, 6, 0]\<rparr>,
     \<lparr>baseCell = 38, faces = [7, 12, 3, 8, 2]\<rparr>,
     \<lparr>baseCell = 49, faces = [9, 14, 0, 5, 4]\<rparr>,
     \<lparr>baseCell = 58, faces = [8, 13, 4, 9, 3]\<rparr>,
     \<lparr>baseCell = 63, faces = [11, 6, 15, 10, 16]\<rparr>,
     \<lparr>baseCell = 72, faces = [12, 7, 16, 11, 17]\<rparr>,
     \<lparr>baseCell = 83, faces = [10, 5, 19, 14, 15]\<rparr>,
     \<lparr>baseCell = 97, faces = [13, 8, 17, 12, 18]\<rparr>,
     \<lparr>baseCell = 107, faces = [14, 9, 18, 13, 19]\<rparr>,
     \<lparr>baseCell = 117, faces = [15, 19, 17, 18, 16]\<rparr>]"

text \<open>A read of a C array: defined inside the bounds only.\<close>

definition tableAt :: "'a list \<Rightarrow> int \<Rightarrow> 'a option" where
  "tableAt xs i = (if 0 \<le> i \<and> i < int (length xs) then Some (xs ! nat i) else None)"

text \<open>
  The loop of \<^verbatim>\<open>vertexRotations\<close> over the table: the first entry of the base cell,
  and \<open>None\<close> when the loop ends without an assignment to \<^verbatim>\<open>dirFaces\<close>.
\<close>

fun findDirFaces :: "PentagonDirectionFaces list \<Rightarrow> int \<Rightarrow> PentagonDirectionFaces option" where
  "findDirFaces [] bc = None"
| "findDirFaces (e # es) bc = (if baseCell e = bc then Some e else findDirFaces es bc)"

text \<open>The read \<^verbatim>\<open>dirFaces.faces[d - DIRECTION_INDEX_OFFSET]\<close>.\<close>

definition dirFace :: "PentagonDirectionFaces option \<Rightarrow> Direction \<Rightarrow> int option" where
  "dirFace dirFaces d =
    (case dirFaces of
       None \<Rightarrow> None
     | Some e \<Rightarrow> tableAt (faces e) (int d - int DIRECTION_INDEX_OFFSET))"

definition vertexRotations :: "h3env \<Rightarrow> H3Index \<Rightarrow> bool \<Rightarrow> int option" where
  "vertexRotations env cell adjustForPentagon =
    (let fijk = h3ToFaceIjk env cell;
         bc = h3GetBaseCell env cell;
         cellLeadingDigit = h3LeadingNonZeroDigit env cell;
         baseFijk = baseCellToFaceIjk env bc;
         ccwRot60 = baseCellToCCWrot60 env bc (face fijk)
     in if adjustForPentagon \<and> isBaseCellPentagon env bc then
          do {
            let dirFaces = findDirFaces pentagonDirectionFaces bc;
            extra \<leftarrow>
              (if face fijk \<noteq> face baseFijk then
                 (if isBaseCellPolarPentagon env bc then Some True
                  else do { f \<leftarrow> dirFace dirFaces IK_AXES_DIGIT; Some (face fijk = f) })
               else Some False);
            let ccwRot60 = (if extra then (ccwRot60 + 1) smod 6 else ccwRot60);
            if cellLeadingDigit = JK_AXES_DIGIT then
              do {
                f \<leftarrow> dirFace dirFaces IK_AXES_DIGIT;
                Some (if face fijk = f then (ccwRot60 + 5) smod 6 else ccwRot60)
              }
            else if cellLeadingDigit = IK_AXES_DIGIT then
              do {
                f \<leftarrow> dirFace dirFaces JK_AXES_DIGIT;
                Some (if face fijk = f then (ccwRot60 + 1) smod 6 else ccwRot60)
              }
            else Some ccwRot60
          }
        else Some ccwRot60)"

subsection \<open>Directions and vertex numbers\<close>

definition directionToVertexNumHex :: "int list" where
  "directionToVertexNumHex = [int INVALID_DIGIT, 3, 1, 2, 5, 4, 0]"

definition directionToVertexNumPent :: "int list" where
  "directionToVertexNumPent = [int INVALID_DIGIT, int INVALID_DIGIT, 1, 2, 4, 3, 0]"

definition vertexNumForDirection :: "h3env \<Rightarrow> H3Index \<Rightarrow> Direction \<Rightarrow> int option" where
  "vertexNumForDirection env origin direction =
    (let isPentagon = h3IsPentagon env origin
     in if direction = CENTER_DIGIT \<or> direction \<ge> INVALID_DIGIT \<or>
           (isPentagon \<and> direction = K_AXES_DIGIT)
        then Some INVALID_VERTEX_NUM
        else do {
          rotations \<leftarrow> vertexRotations env origin True;
          if isPentagon then
            do {
              n \<leftarrow> tableAt directionToVertexNumPent (int direction);
              Some ((n + NUM_PENT_VERTS - rotations) smod NUM_PENT_VERTS)
            }
          else
            do {
              n \<leftarrow> tableAt directionToVertexNumHex (int direction);
              Some ((n + NUM_HEX_VERTS - rotations) smod NUM_HEX_VERTS)
            }
        })"

definition vertexNumToDirectionHex :: "Direction list" where
  "vertexNumToDirectionHex =
    [IJ_AXES_DIGIT, J_AXES_DIGIT, JK_AXES_DIGIT, K_AXES_DIGIT, IK_AXES_DIGIT, I_AXES_DIGIT]"

definition vertexNumToDirectionPent :: "Direction list" where
  "vertexNumToDirectionPent =
    [IJ_AXES_DIGIT, J_AXES_DIGIT, JK_AXES_DIGIT, IK_AXES_DIGIT, I_AXES_DIGIT]"

definition directionForVertexNum :: "h3env \<Rightarrow> H3Index \<Rightarrow> int \<Rightarrow> Direction option" where
  "directionForVertexNum env origin vertexNum =
    (let isPentagon = h3IsPentagon env origin
     in if vertexNum < 0 \<or>
           vertexNum > (if isPentagon then NUM_PENT_VERTS else NUM_HEX_VERTS) - 1
        then Some INVALID_DIGIT
        else do {
          rotations \<leftarrow> vertexRotations env origin True;
          if isPentagon then
            tableAt vertexNumToDirectionPent ((vertexNum + rotations) smod NUM_PENT_VERTS)
          else
            tableAt vertexNumToDirectionHex ((vertexNum + rotations) smod NUM_HEX_VERTS)
        })"

subsection \<open>The vertex of a cell\<close>

definition neighborVertexes :: "int list list" where
  "neighborVertexes = [[4, 2], [5, 3], [0, 4], [1, 5], [2, 0], [3, 1]]"

text \<open>
  The two ways of \<^verbatim>\<open>getCellVertex\<close> to the vertex number in the frame of the owner:
  the table (column 0 for the left neighbour, 1 for the right one), and the
  direction from the owner back to the origin.
\<close>

definition ownerVertexNumSimple :: "int \<Rightarrow> int \<Rightarrow> int option" where
  "ownerVertexNumSimple vertexNum col =
    do { row \<leftarrow> tableAt neighborVertexes vertexNum; tableAt row col }"

definition ownerVertexNumLeft :: "h3env \<Rightarrow> H3Index \<Rightarrow> H3Index \<Rightarrow> int option" where
  "ownerVertexNumLeft env owner origin =
    (let ownerIsPentagon = h3IsPentagon env owner;
         dir = directionForNeighbor env owner origin
     in do {
       n \<leftarrow> vertexNumForDirection env owner dir;
       let ownerVertexNum = n + 1;
       Some (if (ownerIsPentagon \<and> ownerVertexNum = NUM_PENT_VERTS) \<or>
                ownerVertexNum = NUM_HEX_VERTS
             then 0 else ownerVertexNum)
     })"

definition ownerVertexNumRight :: "h3env \<Rightarrow> H3Index \<Rightarrow> H3Index \<Rightarrow> int option" where
  "ownerVertexNumRight env owner origin =
    (let dir = directionForNeighbor env owner origin
     in vertexNumForDirection env owner dir)"

definition getCellVertex :: "h3env \<Rightarrow> H3Index \<Rightarrow> int \<Rightarrow> H3Index option" where
  "getCellVertex env origin vertexNum =
    (let originIsPentagon = h3IsPentagon env origin;
         originNumVerts = (if originIsPentagon then NUM_PENT_VERTS else NUM_HEX_VERTS)
     in do {
       left \<leftarrow> directionForVertexNum env origin vertexNum;
       if left = INVALID_DIGIT then Some H3_NULL
       else do {
         let leftNeighbor = fst (h3NeighborRotations env origin left 0);
         right \<leftarrow> directionForVertexNum env origin
                    ((vertexNum - 1 + originNumVerts) smod originNumVerts);
         if right = INVALID_DIGIT then Some H3_NULL
         else do {
           let rightNeighbor = fst (h3NeighborRotations env origin right 0);
           let owner = origin;
           let owner = (if leftNeighbor < owner then leftNeighbor else owner);
           let owner = (if rightNeighbor < owner then rightNeighbor else owner);
           ownerVertexNum \<leftarrow>
             (if owner \<noteq> origin then
                (let ownerIsPentagon = h3IsPentagon env owner;
                     originFace = face (h3ToFaceIjk env origin);
                     ownerFace = face (h3ToFaceIjk env owner);
                     isSimpleCase =
                       (\<not> ownerIsPentagon \<and> \<not> originIsPentagon \<and> originFace = ownerFace)
                 in if owner = leftNeighbor then
                      (if isSimpleCase then ownerVertexNumSimple vertexNum 0
                       else ownerVertexNumLeft env owner origin)
                    else if owner = rightNeighbor then
                      (if isSimpleCase then ownerVertexNumSimple vertexNum 1
                       else ownerVertexNumRight env owner origin)
                    else Some vertexNum)
              else Some vertexNum);
           Some (H3_SET_RESERVED_BITS env (H3_SET_MODE env owner H3_VERTEX_MODE)
                   ownerVertexNum)
         }
       }
     })"

text \<open>
  \<^verbatim>\<open>getCellVertexes\<close> writes the slots 0..5 of the array of the caller, in this
  order; a write outside the array has no defined result.
\<close>

fun fillVertexes :: "h3env \<Rightarrow> H3Index \<Rightarrow> nat list \<Rightarrow> H3Index list \<Rightarrow> H3Index list option" where
  "fillVertexes env origin [] vertexes = Some vertexes"
| "fillVertexes env origin (i # slots) vertexes =
    (if i < length vertexes then
       do {
         v \<leftarrow> getCellVertex env origin (int i);
         fillVertexes env origin slots (vertexes[i := v])
       }
     else None)"

definition getCellVertexes :: "h3env \<Rightarrow> H3Index \<Rightarrow> H3Index list \<Rightarrow> H3Index list option" where
  "getCellVertexes env origin vertexes =
    fillVertexes env origin [0 ..< nat NUM_HEX_VERTS] vertexes"

subsection \<open>What the file expects of the other compilation units\<close>

text \<open>
  Modelled from the spec: \<^verbatim>\<open>_baseCellToCCWrot60\<close> and \<^verbatim>\<open>_isBaseCellPentagon\<close>
  (baseCells.c) are not part of the translated file. For a valid cell the rotation of
  its base cell on its face is a rotation count, a number of 60 degree steps in
  [0,5], and a pentagon base cell is one of the base cells of the direction-face
  table.
\<close>

definition validCell :: "h3env \<Rightarrow> H3Index \<Rightarrow> bool" where
  "validCell env cell \<longleftrightarrow>
    (let bc = h3GetBaseCell env cell;
         r = baseCellToCCWrot60 env bc (face (h3ToFaceIjk env cell))
     in 0 \<le> r \<and> r \<le> 5 \<and>
        (isBaseCellPentagon env bc \<longrightarrow> bc \<in> baseCell ` set pentagonDirectionFaces))"

text \<open>A valid cell all of whose neighbours, in whatever direction, are valid cells.\<close>

definition validAround :: "h3env \<Rightarrow> H3Index \<Rightarrow> bool" where
  "validAround env origin \<longleftrightarrow>
    validCell env origin \<and>
    (\<forall>d. validCell env (fst (h3NeighborRotations env origin d 0)))"

text \<open>
  Modelled from the spec: the macros \<^verbatim>\<open>H3_SET_MODE\<close> and \<^verbatim>\<open>H3_SET_RESERVED_BITS\<close>
  (h3Index.h) are not part of the translated file. "No vertex" is a null identity,
  distinct from every vertex identity: an index in vertex mode is not \<^verbatim>\<open>H3_NULL\<close>.
\<close>

definition vertexModeNonNull :: "h3env \<Rightarrow> bool" where
  "vertexModeNonNull env \<longleftrightarrow>
    (\<forall>h n. H3_SET_RESERVED_BITS env (H3_SET_MODE env h H3_VERTEX_MODE) n \<noteq> H3_NULL)"

text \<open>
  Modelled from the spec: \<^verbatim>\<open>_isBaseCellPentagon\<close> (baseCells.c) is not part of the
  translated file. There are 12 pentagon base cells, and the direction-face table
  maps pentagon base cells to their faces: the base cell of an entry is a pentagon.
\<close>

definition pentagonBaseCellsSpec :: "h3env \<Rightarrow> bool" where
  "pentagonBaseCellsSpec env \<longleftrightarrow>
    card {b. isBaseCellPentagon env b} = NUM_PENTAGONS \<and>
    (\<forall>e \<in> set pentagonDirectionFaces. isBaseCellPentagon env (baseCell e))"

subsection \<open>A sample environment\<close>

text \<open>
  An environment to run the functions in: the bit fields of the index (mode in the
  bits 59..62, reserved field in 56..58, base cell in 45..51), some cells of
  resolution 0 and 1 around the pentagon base cell 4 and in the pentagon base cell
  14, with their faces, and their neighbours in a table.
\<close>

definition exCellFace :: "H3Index \<Rightarrow> int" where
  "exCellFace h =
    (if h = 0x8001fffffffffff then 1
     else if h = 0x8007fffffffffff then 2
     else if h = 0x8019fffffffffff then 3
     else if h = 0x801ffffffffffff then 4
     else if h = 0x8108bffffffffff then 4
     else if h = 0x811cfffffffffff then 7
     else if h = 0x811d7ffffffffff then 11
     else 0)"

definition exHomeFace :: "int \<Rightarrow> int" where
  "exHomeFace bc =
    (if bc = 0 then 1 else if bc = 3 then 2 else if bc = 12 then 3
     else if bc = 15 then 4 else if bc = 14 then 11 else 0)"

definition exLeadingDigit :: "H3Index \<Rightarrow> Direction" where
  "exLeadingDigit h =
    (if h = 0x8108bffffffffff then J_AXES_DIGIT
     else if h = 0x811cfffffffffff then JK_AXES_DIGIT
     else if h = 0x811d7ffffffffff then IK_AXES_DIGIT
     else CENTER_DIGIT)"

definition exIsBaseCellPentagon :: "int \<Rightarrow> bool" where
  "exIsBaseCellPentagon bc \<longleftrightarrow> bc \<in> {4, 14, 24, 38, 49, 58, 63, 72, 83, 97, 107, 117}"

definition exBaseCell :: "H3Index \<Rightarrow> int" where
  "exBaseCell h = uint (and (drop_bit 45 h) 127)"

definition exNeighbor :: "H3Index \<Rightarrow> Direction \<Rightarrow> H3Index" where
  "exNeighbor h d =
    (if h = 0x8009fffffffffff \<and> d < 7 then
       [0, 0, 0x801ffffffffffff, 0x8011fffffffffff, 0x8007fffffffffff,
        0x8001fffffffffff, 0x8019fffffffffff] ! d
     else if h = 0x8001fffffffffff \<and> d < 7 then
       [0, 0x8003fffffffffff, 0x800bfffffffffff, 0x8005fffffffffff, 0x8009fffffffffff,
        0x8007fffffffffff, 0x8011fffffffffff] ! d
     else 0)"

definition exEnv :: h3env where
  "exEnv =
    \<lparr>h3IsPentagon = (\<lambda>h. exIsBaseCellPentagon (exBaseCell h) \<and> exLeadingDigit h = CENTER_DIGIT),
     h3ToFaceIjk = (\<lambda>h. \<lparr>face = exCellFace h, coord = (0, 0, 0)\<rparr>),
     h3GetBaseCell = exBaseCell,
     h3LeadingNonZeroDigit = exLeadingDigit,
     baseCellToFaceIjk = (\<lambda>bc. \<lparr>face = exHomeFace bc, coord = (0, 0, 0)\<rparr>),
     baseCellToCCWrot60 =
       (\<lambda>bc f. if bc = 14 \<and> f = 7 then 3 else if bc = 4 \<and> f = 4 then 5 else 0),
     isBaseCellPentagon = exIsBaseCellPentagon,
     isBaseCellPolarPentagon = (\<lambda>bc. bc = 4 \<or> bc = 117),
     h3NeighborRotations = (\<lambda>h d rotations. (exNeighbor h d, rotations)),
     directionForNeighbor =
       (\<lambda>owner origin.
          if owner = 0x8001fffffffffff \<and> origin = 0x8009fffffffffff then I_AXES_DIGIT
          else if owner = 0x8007fffffffffff \<and> origin = 0x8009fffffffffff then JK_AXES_DIGIT
          else INVALID_DIGIT),
     H3_SET_MODE =
       (\<lambda>h v. or (and h (not (push_bit 59 15))) (push_bit 59 (word_of_int v))),
     H3_SET_RESERVED_BITS =
       (\<lambda>h v. or (and h (not (push_bit 56 7))) (push_bit 56 (word_of_int v)))\<rparr>"

section \<open>Properties\<close>

lemmas digit_defs =
  CENTER_DIGIT_def K_AXES_DIGIT_def J_AXES_DIGIT_def JK_AXES_DIGIT_def
  I_AXES_DIGIT_def IK_AXES_DIGIT_def IJ_AXES_DIGIT_def INVALID_DIGIT_def

lemmas const_defs =
  NUM_HEX_VERTS_def NUM_PENT_VERTS_def NUM_PENTAGONS_def INVALID_VERTEX_NUM_def

lemmas ex_defs =
  exEnv_def exIsBaseCellPentagon_def exBaseCell_def exLeadingDigit_def exCellFace_def
  exHomeFace_def exNeighbor_def

subsection \<open>Arithmetic of the remainder\<close>

lemma smod_nonneg: "0 \<le> (x::int) \<Longrightarrow> 0 < y \<Longrightarrow> x smod y = x mod y"
  by (cases "x = 0") (simp_all add: signed_modulo_int_def)

lemma smod6_range: "0 \<le> (x::int) \<Longrightarrow> 0 \<le> x smod 6 \<and> x smod 6 \<le> 5"
proof -
  assume "0 \<le> x"
  then have "x smod 6 = x mod 6" by (rule smod_nonneg) simp
  moreover have "0 \<le> x mod 6" "x mod 6 < 6" by simp_all
  ultimately show ?thesis by simp
qed

lemma smod6_pos: "0 \<le> (x::int) \<Longrightarrow> x smod 6 = x mod 6"
  by (rule smod_nonneg) simp_all

lemma mod6_range: "0 \<le> (x::int) mod 6 \<and> x mod 6 \<le> 5"
  using pos_mod_bound [of 6 x] pos_mod_sign [of 6 x] by linarith

lemma rot_steps_mod:
  assumes "0 \<le> (r0::int)"
  shows "(let r1 = (if c1 then (r0 + 1) smod 6 else r0)
          in if a then (r1 + 5) smod 6 else if b then (r1 + 1) smod 6 else r1) =
         (let r1 = (if c1 then (r0 + 1) mod 6 else r0)
          in if a then (r1 + 5) mod 6 else if b then (r1 + 1) mod 6 else r1)"
proof -
  have 1: "(r0 + 1) smod 6 = (r0 + 1) mod 6" using assms by (simp add: smod6_pos)
  have 2: "0 \<le> (if c1 then (r0 + 1) mod 6 else r0)" using assms by simp
  show ?thesis
    unfolding Let_def 1 using 2 by (simp add: smod6_pos)
qed

lemma int_cases5: "0 \<le> (v::int) \<Longrightarrow> v < 5 \<Longrightarrow> v \<in> {0, 1, 2, 3, 4}"
  by auto

lemma int_cases6: "0 \<le> (v::int) \<Longrightarrow> v \<le> 5 \<Longrightarrow> v \<in> {0, 1, 2, 3, 4, 5}"
  by auto

lemma int_cases_dir: "d \<noteq> 0 \<Longrightarrow> d < 7 \<Longrightarrow> d \<in> {1, 2, 3, 4, 5, 6::nat}"
  by auto

subsection \<open>The direction-face table and the rotations\<close>

lemma findDirFaces_mem:
  "bc \<in> baseCell ` set xs \<Longrightarrow>
   \<exists>e. findDirFaces xs bc = Some e \<and> baseCell e = bc \<and> e \<in> set xs"
  by (induction xs) auto

lemma findDirFaces_SomeD:
  "findDirFaces xs bc = Some e \<Longrightarrow> e \<in> set xs \<and> baseCell e = bc"
  by (induction xs) (auto split: if_splits)

lemma table_faces_length:
  "e \<in> set pentagonDirectionFaces \<Longrightarrow> length (faces e) = 5"
  by (auto simp: pentagonDirectionFaces_def)

lemma dirFace_IK:
  "length (faces e) = 5 \<Longrightarrow>
   dirFace (Some e) IK_AXES_DIGIT = Some (faces e ! (IK_AXES_DIGIT - DIRECTION_INDEX_OFFSET))"
  by (simp add: dirFace_def tableAt_def digit_defs DIRECTION_INDEX_OFFSET_def)

lemma dirFace_JK:
  "length (faces e) = 5 \<Longrightarrow>
   dirFace (Some e) JK_AXES_DIGIT = Some (faces e ! (JK_AXES_DIGIT - DIRECTION_INDEX_OFFSET))"
  by (simp add: dirFace_def tableAt_def digit_defs DIRECTION_INDEX_OFFSET_def)

lemma JK_neq_IK: "JK_AXES_DIGIT \<noteq> IK_AXES_DIGIT" "IK_AXES_DIGIT \<noteq> JK_AXES_DIGIT"
  by (simp_all add: digit_defs)

text \<open>
  The rotations of a cell of a pentagon base cell with a table entry \<open>e\<close>: the
  first adjustment gives \<open>r1\<close>, the second one works on \<open>r1\<close>.
\<close>

lemma vertexRotations_pentagon:
  assumes "isBaseCellPentagon env (h3GetBaseCell env cell)"
    and "findDirFaces pentagonDirectionFaces (h3GetBaseCell env cell) = Some e"
  shows "vertexRotations env cell True =
    Some (let f = face (h3ToFaceIjk env cell);
              bc = h3GetBaseCell env cell;
              r0 = baseCellToCCWrot60 env bc f;
              r1 = (if f \<noteq> face (baseCellToFaceIjk env bc) \<and>
                       (isBaseCellPolarPentagon env bc \<or>
                        f = faces e ! (IK_AXES_DIGIT - DIRECTION_INDEX_OFFSET))
                    then (r0 + 1) smod 6 else r0)
          in if h3LeadingNonZeroDigit env cell = JK_AXES_DIGIT \<and>
                f = faces e ! (IK_AXES_DIGIT - DIRECTION_INDEX_OFFSET)
             then (r1 + 5) smod 6
             else if h3LeadingNonZeroDigit env cell = IK_AXES_DIGIT \<and>
                f = faces e ! (JK_AXES_DIGIT - DIRECTION_INDEX_OFFSET)
             then (r1 + 1) smod 6
             else r1)"
proof -
  have len: "length (faces e) = 5"
    using assms(2) findDirFaces_SomeD table_faces_length by blast
  show ?thesis
    using assms
    by (simp add: vertexRotations_def Let_def dirFace_IK [OF len] dirFace_JK [OF len] JK_neq_IK)
qed

lemma vertexRotations_range:
  assumes "validCell env cell"
  shows "\<exists>r. vertexRotations env cell True = Some r \<and> 0 \<le> r \<and> r \<le> 5"
proof (cases "isBaseCellPentagon env (h3GetBaseCell env cell)")
  case False
  then show ?thesis using assms by (simp add: vertexRotations_def validCell_def Let_def)
next
  case True
  then obtain e where e: "findDirFaces pentagonDirectionFaces (h3GetBaseCell env cell) = Some e"
    using assms findDirFaces_mem unfolding validCell_def Let_def by blast
  define r0 where
    "r0 = baseCellToCCWrot60 env (h3GetBaseCell env cell) (face (h3ToFaceIjk env cell))"
  have r0: "0 \<le> r0" "r0 \<le> 5"
    using assms by (simp_all add: validCell_def Let_def r0_def)
  define r1 where
    "r1 = (if face (h3ToFaceIjk env cell) \<noteq>
               face (baseCellToFaceIjk env (h3GetBaseCell env cell)) \<and>
             (isBaseCellPolarPentagon env (h3GetBaseCell env cell) \<or>
              face (h3ToFaceIjk env cell) =
                faces e ! (IK_AXES_DIGIT - DIRECTION_INDEX_OFFSET))
           then (r0 + 1) smod 6 else r0)"
  have r1: "0 \<le> r1 \<and> r1 \<le> 5"
    using r0 smod6_range [of "r0 + 1"] by (simp add: r1_def)
  define r2 where
    "r2 = (if h3LeadingNonZeroDigit env cell = JK_AXES_DIGIT \<and>
             face (h3ToFaceIjk env cell) = faces e ! (IK_AXES_DIGIT - DIRECTION_INDEX_OFFSET)
           then (r1 + 5) smod 6
           else if h3LeadingNonZeroDigit env cell = IK_AXES_DIGIT \<and>
             face (h3ToFaceIjk env cell) = faces e ! (JK_AXES_DIGIT - DIRECTION_INDEX_OFFSET)
           then (r1 + 1) smod 6
           else r1)"
  have r2: "0 \<le> r2 \<and> r2 \<le> 5"
    using r1 smod6_range [of "r1 + 5"] smod6_range [of "r1 + 1"] by (simp add: r2_def)
  have "vertexRotations env cell True = Some r2"
    unfolding vertexRotations_pentagon [OF True e]
    by (simp only: Let_def r0_def r1_def r2_def)
  with r2 show ?thesis by simp
qed

lemma vertexRotations_defined:
  assumes "isBaseCellPentagon env (h3GetBaseCell env cell) \<longrightarrow>
           h3GetBaseCell env cell \<in> baseCell ` set pentagonDirectionFaces"
  shows "\<exists>r. vertexRotations env cell adj = Some r"
proof (cases "adj \<and> isBaseCellPentagon env (h3GetBaseCell env cell)")
  case False
  then show ?thesis by (auto simp: vertexRotations_def Let_def)
next
  case True
  then obtain e where e: "findDirFaces pentagonDirectionFaces (h3GetBaseCell env cell) = Some e"
    using assms findDirFaces_mem by blast
  from True have p: "isBaseCellPentagon env (h3GetBaseCell env cell)" and adj: "adj = True"
    by simp_all
  show ?thesis
    unfolding adj vertexRotations_pentagon [OF p e] by (rule exI, rule refl)
qed

lemma vertexRotations_pentagon_mod:
  assumes "isBaseCellPentagon env (h3GetBaseCell env cell)"
    and "findDirFaces pentagonDirectionFaces (h3GetBaseCell env cell) = Some e"
    and "0 \<le> baseCellToCCWrot60 env (h3GetBaseCell env cell) (face (h3ToFaceIjk env cell))"
  shows "vertexRotations env cell True =
    Some (let r1 = (if face (h3ToFaceIjk env cell) \<noteq>
                       face (baseCellToFaceIjk env (h3GetBaseCell env cell)) \<and>
                       (isBaseCellPolarPentagon env (h3GetBaseCell env cell) \<or>
                        face (h3ToFaceIjk env cell) =
                          faces e ! (IK_AXES_DIGIT - DIRECTION_INDEX_OFFSET))
                    then (baseCellToCCWrot60 env (h3GetBaseCell env cell)
                            (face (h3ToFaceIjk env cell)) + 1) mod 6
                    else baseCellToCCWrot60 env (h3GetBaseCell env cell)
                            (face (h3ToFaceIjk env cell)))
          in if h3LeadingNonZeroDigit env cell = JK_AXES_DIGIT \<and>
                face (h3ToFaceIjk env cell) = faces e ! (IK_AXES_DIGIT - DIRECTION_INDEX_OFFSET)
             then (r1 + 5) mod 6
             else if h3LeadingNonZeroDigit env cell = IK_AXES_DIGIT \<and>
                face (h3ToFaceIjk env cell) = faces e ! (JK_AXES_DIGIT - DIRECTION_INDEX_OFFSET)
             then (r1 + 1) mod 6
             else r1)"
  unfolding vertexRotations_pentagon [OF assms(1,2)]
  by (simp only: Let_def [of "face (h3ToFaceIjk env cell)"] Let_def [of "h3GetBaseCell env cell"]
      Let_def [of "baseCellToCCWrot60 env (h3GetBaseCell env cell) (face (h3ToFaceIjk env cell))"]
      rot_steps_mod [OF assms(3)])


text \<open>
  C7. With the adjustment for pentagons, on a cell of a pentagon base cell whose
  face is not the home face of the base cell, and whose base cell is a polar
  pentagon or whose face is the face of the IK axis in the table entry, the first
  adjustment adds exactly 1 modulo 6 to the base rotation count \<open>r0\<close>, giving
  \<open>r1\<close>; the correction for a deleted subsequence works on \<open>r1\<close>, and the count
  returned is in [0,5].
\<close>

theorem vertexRotations_polar_or_IK_face:
  fixes env :: h3env and cell :: H3Index
  defines "bc \<equiv> h3GetBaseCell env cell"
    and "f \<equiv> face (h3ToFaceIjk env cell)"
    and "lead \<equiv> h3LeadingNonZeroDigit env cell"
  defines "r0 \<equiv> baseCellToCCWrot60 env bc f"
  defines "r1 \<equiv> (r0 + 1) mod 6"
  assumes pent: "isBaseCellPentagon env bc"
    and entry: "findDirFaces pentagonDirectionFaces bc = Some e"
    and base: "0 \<le> r0"
    and off: "f \<noteq> face (baseCellToFaceIjk env bc)"
    and cond: "isBaseCellPolarPentagon env bc \<or>
               f = faces e ! (IK_AXES_DIGIT - DIRECTION_INDEX_OFFSET)"
  shows "\<exists>r. vertexRotations env cell True = Some r \<and> 0 \<le> r \<and> r \<le> 5 \<and>
           r = (if lead = JK_AXES_DIGIT \<and>
                   f = faces e ! (IK_AXES_DIGIT - DIRECTION_INDEX_OFFSET)
                then (r1 + 5) mod 6
                else if lead = IK_AXES_DIGIT \<and>
                   f = faces e ! (JK_AXES_DIGIT - DIRECTION_INDEX_OFFSET)
                then (r1 + 1) mod 6
                else r1)"
proof -
  note defs = r1_def r0_def lead_def f_def bc_def
  have first: "f \<noteq> face (baseCellToFaceIjk env bc) \<and>
      (isBaseCellPolarPentagon env bc \<or> f = faces e ! (IK_AXES_DIGIT - DIRECTION_INDEX_OFFSET))"
    using off cond by (rule conjI)
  have eq: "vertexRotations env cell True =
      Some (if lead = JK_AXES_DIGIT \<and>
               f = faces e ! (IK_AXES_DIGIT - DIRECTION_INDEX_OFFSET)
            then (r1 + 5) mod 6
            else if lead = IK_AXES_DIGIT \<and>
               f = faces e ! (JK_AXES_DIGIT - DIRECTION_INDEX_OFFSET)
            then (r1 + 1) mod 6
            else r1)"
    unfolding vertexRotations_pentagon_mod
      [OF pent [unfolded defs] entry [unfolded defs] base [unfolded defs]]
    unfolding defs Let_def if_P [OF first [unfolded defs]] by (rule refl)
  have r1: "0 \<le> r1 \<and> r1 \<le> 5" unfolding r1_def by (rule mod6_range)
  have range: "0 \<le> (if a then (r1 + 5) mod 6 else if b then (r1 + 1) mod 6 else r1) \<and>
        (if a then (r1 + 5) mod 6 else if b then (r1 + 1) mod 6 else r1) \<le> 5" for a b
    using r1 mod6_range [of "r1 + 5"] mod6_range [of "r1 + 1"] by simp
  show ?thesis
    unfolding eq using range by (intro exI conjI refl) simp_all
qed

text \<open>
  The cell of digit J in the polar pentagon base cell 4, on the face 4 with the base
  rotation 5, has the rotation 0; the cell of digit JK in the base cell 14, on the
  face of the IK axis with the base rotation 3, gets 4 and then, crossing from JK
  to IK, 3.
\<close>

theorem vertexRotations_polar_or_IK_face_witness:
  "vertexRotations exEnv 0x8108bffffffffff True = Some 0 \<and>
   vertexRotations exEnv 0x811cfffffffffff True = Some 3"
proof -
  have e4: "findDirFaces pentagonDirectionFaces (h3GetBaseCell exEnv 0x8108bffffffffff) =
      Some \<lparr>baseCell = 4, faces = [4, 0, 2, 1, 3]\<rparr>"
    by (simp add: ex_defs pentagonDirectionFaces_def)
  have e14: "findDirFaces pentagonDirectionFaces (h3GetBaseCell exEnv 0x811cfffffffffff) =
      Some \<lparr>baseCell = 14, faces = [6, 11, 2, 7, 1]\<rparr>"
    by (simp add: ex_defs pentagonDirectionFaces_def)
  have "vertexRotations exEnv 0x8108bffffffffff True = Some 0"
    using vertexRotations_polar_or_IK_face [OF _ e4]
    by (simp add: ex_defs digit_defs DIRECTION_INDEX_OFFSET_def)
  moreover have "vertexRotations exEnv 0x811cfffffffffff True = Some 3"
    using vertexRotations_polar_or_IK_face [OF _ e14]
    by (simp add: ex_defs digit_defs DIRECTION_INDEX_OFFSET_def)
  ultimately show ?thesis by simp
qed

text \<open>
  C8. With the adjustment for pentagons on a cell of a pentagon base cell, let \<open>r1\<close>
  be the rotation count after the first adjustment. When the leading digit is the
  JK digit and the face is the face of the IK axis in the table entry, the count
  returned is \<open>r1 - 1\<close> modulo 6; when the leading digit is the IK digit and the
  face is the face of the JK axis, it is \<open>r1 + 1\<close> modulo 6.
\<close>

theorem vertexRotations_deleted_subsequence:
  fixes env :: h3env and cell :: H3Index and e :: PentagonDirectionFaces
  defines "bc \<equiv> h3GetBaseCell env cell"
    and "f \<equiv> face (h3ToFaceIjk env cell)"
    and "lead \<equiv> h3LeadingNonZeroDigit env cell"
  defines "r0 \<equiv> baseCellToCCWrot60 env bc f"
  defines "r1 \<equiv>
    (if f \<noteq> face (baseCellToFaceIjk env bc) \<and>
        (isBaseCellPolarPentagon env bc \<or>
         f = faces e ! (IK_AXES_DIGIT - DIRECTION_INDEX_OFFSET))
     then (r0 + 1) mod 6 else r0)"
  assumes pent: "isBaseCellPentagon env bc"
    and entry: "findDirFaces pentagonDirectionFaces bc = Some e"
    and base: "0 \<le> r0"
  shows "(lead = JK_AXES_DIGIT \<and> f = faces e ! (IK_AXES_DIGIT - DIRECTION_INDEX_OFFSET) \<longrightarrow>
            vertexRotations env cell True = Some ((r1 - 1) mod 6)) \<and>
         (lead = IK_AXES_DIGIT \<and> f = faces e ! (JK_AXES_DIGIT - DIRECTION_INDEX_OFFSET) \<longrightarrow>
            vertexRotations env cell True = Some ((r1 + 1) mod 6))"
proof -
  note defs = r1_def r0_def lead_def f_def bc_def
  have eq: "vertexRotations env cell True =
      Some (if lead = JK_AXES_DIGIT \<and>
               f = faces e ! (IK_AXES_DIGIT - DIRECTION_INDEX_OFFSET)
            then (r1 + 5) mod 6
            else if lead = IK_AXES_DIGIT \<and>
               f = faces e ! (JK_AXES_DIGIT - DIRECTION_INDEX_OFFSET)
            then (r1 + 1) mod 6
            else r1)"
    unfolding vertexRotations_pentagon_mod
      [OF pent [unfolded defs] entry [unfolded defs] base [unfolded defs]]
    unfolding defs Let_def by (rule refl)
  have m: "(r1 + 5) mod 6 = (r1 - 1) mod 6"
    by presburger
  have ne: "lead = IK_AXES_DIGIT \<Longrightarrow> lead \<noteq> JK_AXES_DIGIT" by (simp add: digit_defs)
  show ?thesis
  proof (intro conjI impI)
    assume a: "lead = JK_AXES_DIGIT \<and> f = faces e ! (IK_AXES_DIGIT - DIRECTION_INDEX_OFFSET)"
    show "vertexRotations env cell True = Some ((r1 - 1) mod 6)"
      unfolding eq if_P [OF a] m by (rule refl)
  next
    assume b: "lead = IK_AXES_DIGIT \<and> f = faces e ! (JK_AXES_DIGIT - DIRECTION_INDEX_OFFSET)"
    then have n: "\<not> (lead = JK_AXES_DIGIT \<and>
        f = faces e ! (IK_AXES_DIGIT - DIRECTION_INDEX_OFFSET))"
      using ne by blast
    show "vertexRotations env cell True = Some ((r1 + 1) mod 6)"
      unfolding eq if_not_P [OF n] if_P [OF b] by (rule refl)
  qed
qed

text \<open>
  In the pentagon base cell 14: the cell of digit JK on the face 7 of the IK axis
  goes from 4 to 3, the cell of digit IK on the face 11 of the JK axis from 0 to 1.
\<close>

theorem vertexRotations_deleted_subsequence_witness:
  "vertexRotations exEnv 0x811cfffffffffff True = Some 3 \<and>
   vertexRotations exEnv 0x811d7ffffffffff True = Some 1"
proof -
  have e: "findDirFaces pentagonDirectionFaces (h3GetBaseCell exEnv 0x811cfffffffffff) =
      Some \<lparr>baseCell = 14, faces = [6, 11, 2, 7, 1]\<rparr>"
    by (simp add: ex_defs pentagonDirectionFaces_def)
  have e': "findDirFaces pentagonDirectionFaces (h3GetBaseCell exEnv 0x811d7ffffffffff) =
      Some \<lparr>baseCell = 14, faces = [6, 11, 2, 7, 1]\<rparr>"
    by (simp add: ex_defs pentagonDirectionFaces_def)
  have "vertexRotations exEnv 0x811cfffffffffff True = Some 3"
    using vertexRotations_deleted_subsequence [OF _ e, THEN conjunct1]
    by (simp add: ex_defs digit_defs DIRECTION_INDEX_OFFSET_def)
  moreover have "vertexRotations exEnv 0x811d7ffffffffff True = Some 1"
    using vertexRotations_deleted_subsequence [OF _ e', THEN conjunct2]
    by (simp add: ex_defs digit_defs DIRECTION_INDEX_OFFSET_def)
  ultimately show ?thesis by simp
qed

lemma exEnv_validCell: "validCell exEnv c"
  by (simp add: validCell_def exEnv_def exIsBaseCellPentagon_def pentagonDirectionFaces_def)

subsection \<open>The two tables are inverse to each other\<close>

lemma inverse_hex:
  assumes "v \<in> {0, 1, 2, 3, 4, 5}" "r \<in> {0, 1, 2, 3, 4, 5}"
  shows "\<exists>d. tableAt vertexNumToDirectionHex ((v + r) smod NUM_HEX_VERTS) = Some d \<and>
             d \<noteq> CENTER_DIGIT \<and> d < INVALID_DIGIT \<and>
             (\<exists>n. tableAt directionToVertexNumHex (int d) = Some n \<and>
                  (n + NUM_HEX_VERTS - r) smod NUM_HEX_VERTS = v)"
  using assms
  by (auto simp: tableAt_def vertexNumToDirectionHex_def directionToVertexNumHex_def
      digit_defs const_defs signed_modulo_int_def)

lemma inverse_pent:
  assumes "v \<in> {0, 1, 2, 3, 4}" "r \<in> {0, 1, 2, 3, 4, 5}"
  shows "\<exists>d. tableAt vertexNumToDirectionPent ((v + r) smod NUM_PENT_VERTS) = Some d \<and>
             d \<noteq> CENTER_DIGIT \<and> d < INVALID_DIGIT \<and> d \<noteq> K_AXES_DIGIT \<and>
             (\<exists>n. tableAt directionToVertexNumPent (int d) = Some n \<and>
                  (n + NUM_PENT_VERTS - r) smod NUM_PENT_VERTS = v)"
  using assms
  by (auto simp: tableAt_def vertexNumToDirectionPent_def directionToVertexNumPent_def
      digit_defs const_defs signed_modulo_int_def)

text \<open>
  A valid corner number has a direction, never the invalid digit, and the corner
  number of that direction is the corner number again.
\<close>

lemma direction_of_vertexNum:
  assumes valid: "validCell env cell"
    and lo: "0 \<le> v"
    and hi: "v < (if h3IsPentagon env cell then NUM_PENT_VERTS else NUM_HEX_VERTS)"
  shows "\<exists>d. directionForVertexNum env cell v = Some d \<and>
             d \<noteq> CENTER_DIGIT \<and> d < INVALID_DIGIT \<and>
             \<not> (h3IsPentagon env cell \<and> d = K_AXES_DIGIT) \<and>
             vertexNumForDirection env cell d = Some v"
proof -
  obtain r where r: "vertexRotations env cell True = Some r" "0 \<le> r" "r \<le> 5"
    using vertexRotations_range [OF valid] by blast
  have rs: "r \<in> {0, 1, 2, 3, 4, 5}" using r by (intro int_cases6)
  show ?thesis
  proof (cases "h3IsPentagon env cell")
    case True
    have vs: "v \<in> {0, 1, 2, 3, 4}"
      using lo hi True by (intro int_cases5) (simp_all add: const_defs)
    from inverse_pent [OF vs rs] obtain d n where
      d: "tableAt vertexNumToDirectionPent ((v + r) smod NUM_PENT_VERTS) = Some d"
         "d \<noteq> CENTER_DIGIT" "d < INVALID_DIGIT" "d \<noteq> K_AXES_DIGIT"
         "tableAt directionToVertexNumPent (int d) = Some n"
         "(n + NUM_PENT_VERTS - r) smod NUM_PENT_VERTS = v"
      by blast
    have "directionForVertexNum env cell v = Some d"
      using True lo hi r d by (simp add: directionForVertexNum_def)
    moreover have "vertexNumForDirection env cell d = Some v"
      using True r d by (simp add: vertexNumForDirection_def)
    ultimately show ?thesis using d True by (intro exI [of _ d]) simp
  next
    case False
    have vs: "v \<in> {0, 1, 2, 3, 4, 5}"
      using lo hi False by (intro int_cases6) (simp_all add: const_defs)
    from inverse_hex [OF vs rs] obtain d n where
      d: "tableAt vertexNumToDirectionHex ((v + r) smod NUM_HEX_VERTS) = Some d"
         "d \<noteq> CENTER_DIGIT" "d < INVALID_DIGIT"
         "tableAt directionToVertexNumHex (int d) = Some n"
         "(n + NUM_HEX_VERTS - r) smod NUM_HEX_VERTS = v"
      by blast
    have "directionForVertexNum env cell v = Some d"
      using False lo hi r d by (simp add: directionForVertexNum_def)
    moreover have "vertexNumForDirection env cell d = Some v"
      using False r d by (simp add: vertexNumForDirection_def)
    ultimately show ?thesis using d False by (intro exI [of _ d]) simp
  qed
qed

text \<open>
  C1. For a valid cell and a valid corner number \<open>v\<close> (0..5 for a hexagon, 0..4 for
  a pentagon), \<open>directionForVertexNum\<close> returns a direction \<open>d\<close>, and
  \<open>vertexNumForDirection\<close> of the cell and \<open>d\<close> is \<open>v\<close>.
\<close>

theorem vertexNum_direction_inverse:
  assumes "validCell env cell"
    and "0 \<le> v"
    and "v < (if h3IsPentagon env cell then NUM_PENT_VERTS else NUM_HEX_VERTS)"
  shows "\<exists>d. directionForVertexNum env cell v = Some d \<and>
             vertexNumForDirection env cell d = Some v"
  using direction_of_vertexNum [OF assms] by blast

text \<open>
  The hexagon with the leading digit JK in the pentagon base cell 14, whose
  vertex numbers are rotated 3 times: the corner 4 is the corner of the direction J.
\<close>

theorem vertexNum_direction_inverse_witness:
  "validCell exEnv 0x811cfffffffffff \<and>
   directionForVertexNum exEnv 0x811cfffffffffff 4 = Some J_AXES_DIGIT \<and>
   vertexNumForDirection exEnv 0x811cfffffffffff J_AXES_DIGIT = Some 4"
proof -
  have v: "validCell exEnv 0x811cfffffffffff" by (rule exEnv_validCell)
  have h: "\<not> h3IsPentagon exEnv 0x811cfffffffffff" by (simp add: ex_defs digit_defs)
  have d: "directionForVertexNum exEnv 0x811cfffffffffff 4 = Some J_AXES_DIGIT"
    by (simp add: directionForVertexNum_def vertexRotations_def ex_defs digit_defs const_defs
        pentagonDirectionFaces_def dirFace_def tableAt_def DIRECTION_INDEX_OFFSET_def
        vertexNumToDirectionHex_def signed_modulo_int_def Let_def)
  from vertexNum_direction_inverse [OF v, of 4] h d
  have "vertexNumForDirection exEnv 0x811cfffffffffff J_AXES_DIGIT = Some 4"
    by (simp add: const_defs)
  with v d show ?thesis by simp
qed

subsection \<open>The sentinel of an invalid direction\<close>

lemma vertexNum_hex_range:
  assumes "d \<in> {1, 2, 3, 4, 5, 6::nat}" "r \<in> {0, 1, 2, 3, 4, 5::int}"
  shows "\<exists>n k. tableAt directionToVertexNumHex (int d) = Some n \<and>
    (n + NUM_HEX_VERTS - r) smod NUM_HEX_VERTS = k \<and> 0 \<le> k \<and> k < NUM_HEX_VERTS"
  using assms
  by (auto simp: tableAt_def directionToVertexNumHex_def digit_defs const_defs
      signed_modulo_int_def)

lemma vertexNum_pent_range:
  assumes "d \<in> {2, 3, 4, 5, 6::nat}" "r \<in> {0, 1, 2, 3, 4, 5::int}"
  shows "\<exists>n k. tableAt directionToVertexNumPent (int d) = Some n \<and>
    (n + NUM_PENT_VERTS - r) smod NUM_PENT_VERTS = k \<and> 0 \<le> k \<and> k < NUM_PENT_VERTS"
  using assms
  by (auto simp: tableAt_def directionToVertexNumPent_def digit_defs const_defs
      signed_modulo_int_def)

lemma vertexNumForDirection_valid:
  assumes valid: "validCell env cell"
    and d: "d \<noteq> CENTER_DIGIT" "d < INVALID_DIGIT"
      "\<not> (h3IsPentagon env cell \<and> d = K_AXES_DIGIT)"
  shows "\<exists>k. vertexNumForDirection env cell d = Some k \<and> 0 \<le> k \<and>
    k < (if h3IsPentagon env cell then NUM_PENT_VERTS else NUM_HEX_VERTS)"
proof -
  obtain r where r: "vertexRotations env cell True = Some r" "0 \<le> r" "r \<le> 5"
    using vertexRotations_range [OF valid] by blast
  have rs: "r \<in> {0, 1, 2, 3, 4, 5}" using r by (intro int_cases6)
  have ds: "d \<in> {1, 2, 3, 4, 5, 6}"
    using d by (intro int_cases_dir) (simp_all add: digit_defs)
  show ?thesis
  proof (cases "h3IsPentagon env cell")
    case True
    then have "d \<in> {2, 3, 4, 5, 6}" using ds d by (auto simp: digit_defs)
    from vertexNum_pent_range [OF this rs] show ?thesis
      using True d r by (auto simp: vertexNumForDirection_def)
  next
    case False
    from vertexNum_hex_range [OF ds rs] show ?thesis
      using False d r by (auto simp: vertexNumForDirection_def)
  qed
qed

lemma vertexNumForDirection_invalid:
  "d = CENTER_DIGIT \<or> d \<ge> INVALID_DIGIT \<or> (h3IsPentagon env cell \<and> d = K_AXES_DIGIT) \<Longrightarrow>
   vertexNumForDirection env cell d = Some INVALID_VERTEX_NUM"
  by (auto simp: vertexNumForDirection_def)

lemma vertexNumForDirection_defined:
  assumes "validCell env cell"
  shows "\<exists>k. vertexNumForDirection env cell d = Some k"
proof (cases "d = CENTER_DIGIT \<or> d \<ge> INVALID_DIGIT \<or> (h3IsPentagon env cell \<and> d = K_AXES_DIGIT)")
  case True
  then show ?thesis using vertexNumForDirection_invalid by blast
next
  case False
  then show ?thesis using vertexNumForDirection_valid [OF assms, of d] by auto
qed

text \<open>
  C9. On a valid cell, \<open>vertexNumForDirection\<close> returns \<open>INVALID_VERTEX_NUM\<close>
  exactly when the direction is the centre digit, or is \<open>INVALID_DIGIT\<close> or
  beyond, or is the K axis on a pentagon; it always returns, and what it returns
  otherwise is a corner number of the cell.
\<close>

theorem vertexNumForDirection_sentinel:
  assumes valid: "validCell env cell"
  shows "(vertexNumForDirection env cell d = Some INVALID_VERTEX_NUM \<longleftrightarrow>
            d = CENTER_DIGIT \<or> d \<ge> INVALID_DIGIT \<or>
            (h3IsPentagon env cell \<and> d = K_AXES_DIGIT)) \<and>
         (\<exists>k. vertexNumForDirection env cell d = Some k \<and>
            (k = INVALID_VERTEX_NUM \<or>
             0 \<le> k \<and> k < (if h3IsPentagon env cell then NUM_PENT_VERTS else NUM_HEX_VERTS)))"
proof (cases "d = CENTER_DIGIT \<or> d \<ge> INVALID_DIGIT \<or> (h3IsPentagon env cell \<and> d = K_AXES_DIGIT)")
  case True
  then show ?thesis using vertexNumForDirection_invalid [OF True] by simp
next
  case False
  then obtain k where k: "vertexNumForDirection env cell d = Some k" "0 \<le> k"
      "k < (if h3IsPentagon env cell then NUM_PENT_VERTS else NUM_HEX_VERTS)"
    using vertexNumForDirection_valid [OF valid, of d] by auto
  then have "k \<noteq> INVALID_VERTEX_NUM" by (simp add: INVALID_VERTEX_NUM_def)
  then show ?thesis using False k by auto
qed

text \<open>
  The K axis on the pentagon of the base cell 4 is invalid, the J axis is not, and
  the K axis on the hexagon of the base cell 0 is not.
\<close>

theorem vertexNumForDirection_sentinel_witness:
  "validCell exEnv 0x8009fffffffffff \<and>
   vertexNumForDirection exEnv 0x8009fffffffffff K_AXES_DIGIT = Some INVALID_VERTEX_NUM \<and>
   vertexNumForDirection exEnv 0x8009fffffffffff J_AXES_DIGIT \<noteq> Some INVALID_VERTEX_NUM \<and>
   vertexNumForDirection exEnv 0x8001fffffffffff K_AXES_DIGIT \<noteq> Some INVALID_VERTEX_NUM"
proof -
  have v: "validCell exEnv c" for c by (rule exEnv_validCell)
  have p: "h3IsPentagon exEnv 0x8009fffffffffff" "\<not> h3IsPentagon exEnv 0x8001fffffffffff"
    by (simp_all add: ex_defs digit_defs)
  show ?thesis
    using vertexNumForDirection_sentinel [OF v, of "0x8009fffffffffff" K_AXES_DIGIT]
      vertexNumForDirection_sentinel [OF v, of "0x8009fffffffffff" J_AXES_DIGIT]
      vertexNumForDirection_sentinel [OF v, of "0x8001fffffffffff" K_AXES_DIGIT]
      p v
    by (simp add: digit_defs)
qed

subsection \<open>Every pentagon base cell has its table entry\<close>

lemma table_baseCells:
  "baseCell ` set pentagonDirectionFaces = {4, 14, 24, 38, 49, 58, 63, 72, 83, 97, 107, 117}"
  by (simp add: pentagonDirectionFaces_def)

lemma table_baseCells_card: "card (baseCell ` set pentagonDirectionFaces) = 12"
  unfolding table_baseCells by simp

lemma pentagon_has_entry:
  assumes spec: "pentagonBaseCellsSpec env" and pent: "isBaseCellPentagon env b"
  shows "b \<in> baseCell ` set pentagonDirectionFaces"
proof -
  let ?P = "{b. isBaseCellPentagon env b}"
  let ?K = "baseCell ` set pentagonDirectionFaces"
  have card: "card ?P = 12"
    using spec by (simp add: pentagonBaseCellsSpec_def NUM_PENTAGONS_def)
  then have fin: "finite ?P" using card_ge_0_finite [of ?P] by simp
  have sub: "?K \<subseteq> ?P" using spec by (auto simp: pentagonBaseCellsSpec_def)
  have "?K = ?P"
    using fin sub card table_baseCells_card by (intro card_subset_eq) simp_all
  then show ?thesis using pent by blast
qed

text \<open>
  C10. When there are 12 pentagon base cells and the base cells of the table are
  pentagons, every base cell that \<open>isBaseCellPentagon\<close> accepts has an entry in
  \<open>pentagonDirectionFaces\<close>, which the loop of \<open>vertexRotations\<close> finds: with the
  adjustment for pentagons, \<open>vertexRotations\<close> never reads a \<open>dirFaces\<close> that was
  not assigned.
\<close>

theorem pentagon_table_complete:
  assumes spec: "pentagonBaseCellsSpec env"
  shows "(\<forall>b. isBaseCellPentagon env b \<longrightarrow>
            (\<exists>e. findDirFaces pentagonDirectionFaces b = Some e \<and> baseCell e = b)) \<and>
         (\<forall>cell. vertexRotations env cell True \<noteq> None)"
proof (intro conjI allI impI)
  fix b assume "isBaseCellPentagon env b"
  then have "b \<in> baseCell ` set pentagonDirectionFaces"
    by (rule pentagon_has_entry [OF spec])
  then show "\<exists>e. findDirFaces pentagonDirectionFaces b = Some e \<and> baseCell e = b"
    using findDirFaces_mem by blast
next
  fix cell
  have "\<exists>r. vertexRotations env cell True = Some r"
    by (rule vertexRotations_defined) (simp add: pentagon_has_entry [OF spec])
  then show "vertexRotations env cell True \<noteq> None" by auto
qed

text \<open>
  The sample environment has the 12 pentagon base cells of the table; the base
  cell 117 has the last entry.
\<close>

theorem pentagon_table_complete_witness:
  "pentagonBaseCellsSpec exEnv \<and> isBaseCellPentagon exEnv 117 \<and>
   (\<exists>e. findDirFaces pentagonDirectionFaces 117 = Some e \<and> baseCell e = 117) \<and>
   vertexRotations exEnv 0x811cfffffffffff True \<noteq> None"
proof -
  have "{b. exIsBaseCellPentagon b} = {4, 14, 24, 38, 49, 58, 63, 72, 83, 97, 107, 117}"
    by (auto simp: exIsBaseCellPentagon_def)
  then have s: "pentagonBaseCellsSpec exEnv"
    by (simp add: pentagonBaseCellsSpec_def NUM_PENTAGONS_def exEnv_def)
       (simp add: pentagonDirectionFaces_def exIsBaseCellPentagon_def)
  have p: "isBaseCellPentagon exEnv 117" by (simp add: ex_defs)
  note t = pentagon_table_complete [OF s]
  have e: "\<exists>e. findDirFaces pentagonDirectionFaces 117 = Some e \<and> baseCell e = 117"
    using t [THEN conjunct1, rule_format, OF p] .
  have r: "vertexRotations exEnv 0x811cfffffffffff True \<noteq> None"
    using t [THEN conjunct2, rule_format] .
  from s p e r show ?thesis by (intro conjI)
qed

subsection \<open>The owner of a vertex\<close>

lemma owner_min:
  fixes origin l r :: "'a::linorder"
  shows "(if r < (if l < origin then l else origin) then r
          else (if l < origin then l else origin)) = min origin (min l r)"
  by (auto simp: min_def)

lemma directionForVertexNum_range:
  assumes "directionForVertexNum env origin v = Some d" "d \<noteq> INVALID_DIGIT"
  shows "0 \<le> v \<and> v < (if h3IsPentagon env origin then NUM_PENT_VERTS else NUM_HEX_VERTS)"
proof (rule ccontr)
  assume "\<not> ?thesis"
  then have "v < 0 \<or> v > (if h3IsPentagon env origin then NUM_PENT_VERTS else NUM_HEX_VERTS) - 1"
    by auto
  then have "directionForVertexNum env origin v = Some INVALID_DIGIT"
    unfolding directionForVertexNum_def Let_def by (rule if_P)
  with assms show False by simp
qed

lemma ownerVertexNumSimple_defined:
  assumes "0 \<le> v" "v \<le> 5"
  shows "ownerVertexNumSimple v 0 = Some ((v + 4) mod 6)"
    and "ownerVertexNumSimple v 1 = Some ((v + 2) mod 6)"
proof -
  have "v \<in> {0, 1, 2, 3, 4, 5}" using assms by (rule int_cases6)
  then show "ownerVertexNumSimple v 0 = Some ((v + 4) mod 6)"
    and "ownerVertexNumSimple v 1 = Some ((v + 2) mod 6)"
    by (auto simp: ownerVertexNumSimple_def neighborVertexes_def tableAt_def)
qed

text \<open>The vertex number in the frame of the owner, as getCellVertex finds it.\<close>

lemma getCellVertex_unfold:
  assumes l: "directionForVertexNum env origin v = Some left" "left \<noteq> INVALID_DIGIT"
    and r: "directionForVertexNum env origin
              ((v - 1 + (if h3IsPentagon env origin then NUM_PENT_VERTS else NUM_HEX_VERTS)) smod
               (if h3IsPentagon env origin then NUM_PENT_VERTS else NUM_HEX_VERTS)) = Some right"
           "right \<noteq> INVALID_DIGIT"
    and L: "L = fst (h3NeighborRotations env origin left 0)"
    and R: "R = fst (h3NeighborRotations env origin right 0)"
    and owner: "owner = min origin (min L R)"
    and simple: "simple \<longleftrightarrow> \<not> h3IsPentagon env owner \<and> \<not> h3IsPentagon env origin \<and>
                  face (h3ToFaceIjk env origin) = face (h3ToFaceIjk env owner)"
  shows "getCellVertex env origin v =
    do {
      k \<leftarrow> (if owner \<noteq> origin then
              (if owner = L then
                 (if simple then ownerVertexNumSimple v 0
                  else ownerVertexNumLeft env owner origin)
               else if owner = R then
                 (if simple then ownerVertexNumSimple v 1
                  else ownerVertexNumRight env owner origin)
               else Some v)
            else Some v);
      Some (H3_SET_RESERVED_BITS env (H3_SET_MODE env owner H3_VERTEX_MODE) k)
    }"
proof -
  have o: "(if R < (if L < origin then L else origin) then R
            else (if L < origin then L else origin)) = owner"
    unfolding owner by (rule owner_min)
  show ?thesis
    unfolding getCellVertex_def Let_def
    by (simp only: l r option.simps bind.bind_lunit if_False L [symmetric] R [symmetric] o
        simple [symmetric])
qed


lemma smod5_less: "(x::int) smod 5 < 5"
proof (cases "0 \<le> x")
  case True
  then have "x smod 5 = x mod 5" by (rule smod_nonneg) simp
  then show ?thesis by simp
next
  case False
  then have "x smod 5 = - (\<bar>x\<bar> mod 5)" by (simp add: signed_modulo_int_def)
  moreover have "0 \<le> \<bar>x\<bar> mod 5" by simp
  ultimately show ?thesis by linarith
qed

lemma vertexNumForDirection_pent_less:
  assumes "h3IsPentagon env c" "vertexNumForDirection env c d = Some k"
  shows "k < 5"
proof (cases "d = CENTER_DIGIT \<or> d \<ge> INVALID_DIGIT \<or> (h3IsPentagon env c \<and> d = K_AXES_DIGIT)")
  case True
  from vertexNumForDirection_invalid [OF True] assms show ?thesis
    by (simp add: INVALID_VERTEX_NUM_def)
next
  case False
  then have "vertexNumForDirection env c d =
      do { rotations \<leftarrow> vertexRotations env c True;
           n \<leftarrow> tableAt directionToVertexNumPent (int d);
           Some ((n + NUM_PENT_VERTS - rotations) smod NUM_PENT_VERTS) }"
    using assms(1) by (simp add: vertexNumForDirection_def)
  with assms(2) obtain rot n where "k = (n + NUM_PENT_VERTS - rot) smod NUM_PENT_VERTS"
    by (auto simp: bind_eq_Some_conv)
  then show ?thesis using smod5_less by (simp add: NUM_PENT_VERTS_def)
qed

lemma ownerVertexNumLeft_eq:
  assumes "vertexNumForDirection env owner (directionForNeighbor env owner origin) = Some k"
  shows "ownerVertexNumLeft env owner origin =
    Some (if k + 1 = (if h3IsPentagon env owner then NUM_PENT_VERTS else NUM_HEX_VERTS)
          then 0 else k + 1)"
proof (cases "h3IsPentagon env owner")
  case True
  then have "k < 5" using assms by (rule vertexNumForDirection_pent_less)
  then show ?thesis using True assms
    by (simp add: ownerVertexNumLeft_def Let_def const_defs)
next
  case False
  then show ?thesis using assms by (simp add: ownerVertexNumLeft_def Let_def const_defs)
qed

lemma ownerVertexNumRight_eq:
  assumes "vertexNumForDirection env owner (directionForNeighbor env owner origin) = Some k"
  shows "ownerVertexNumRight env owner origin = Some k"
  using assms by (simp add: ownerVertexNumRight_def Let_def)

lemma getCellVertex_resolves:
  assumes l: "directionForVertexNum env origin v = Some left" "left \<noteq> INVALID_DIGIT"
    and r: "directionForVertexNum env origin
              ((v - 1 + (if h3IsPentagon env origin then NUM_PENT_VERTS else NUM_HEX_VERTS)) smod
               (if h3IsPentagon env origin then NUM_PENT_VERTS else NUM_HEX_VERTS)) = Some right"
           "right \<noteq> INVALID_DIGIT"
    and L: "L = fst (h3NeighborRotations env origin left 0)"
    and R: "R = fst (h3NeighborRotations env origin right 0)"
    and owner: "owner = min origin (min L R)"
    and valid: "validCell env L" "validCell env R"
  shows "\<exists>k. getCellVertex env origin v =
               Some (H3_SET_RESERVED_BITS env (H3_SET_MODE env owner H3_VERTEX_MODE) k) \<and>
             (owner = origin \<longrightarrow> k = v)"
proof -
  define simple where "simple \<longleftrightarrow> \<not> h3IsPentagon env owner \<and> \<not> h3IsPentagon env origin \<and>
                  face (h3ToFaceIjk env origin) = face (h3ToFaceIjk env owner)"
  note u = getCellVertex_unfold [OF l r L R owner simple_def]
  show ?thesis
  proof (cases "owner = origin")
    case True
    then show ?thesis unfolding u by simp
  next
    case False
    then have lr: "owner = L \<or> owner = R" unfolding owner by (auto simp: min_def)
    then have vo: "validCell env owner" using valid by auto
    obtain k where k: "vertexNumForDirection env owner (directionForNeighbor env owner origin) = Some k"
      using vertexNumForDirection_defined [OF vo] by blast
    have range: "0 \<le> v" "v \<le> 5"
      using directionForVertexNum_range [OF l] by (auto simp: const_defs split: if_splits)
    have "\<exists>k'. (if owner = L then
                 (if simple then ownerVertexNumSimple v 0
                  else ownerVertexNumLeft env owner origin)
               else if owner = R then
                 (if simple then ownerVertexNumSimple v 1
                  else ownerVertexNumRight env owner origin)
               else Some v) = Some k'"
      using ownerVertexNumSimple_defined [OF range] ownerVertexNumLeft_eq [OF k]
          ownerVertexNumRight_eq [OF k]
      by (cases "owner = L"; cases "owner = R"; cases simple) simp_all
    then obtain k' where "(if owner = L then
                 (if simple then ownerVertexNumSimple v 0
                  else ownerVertexNumLeft env owner origin)
               else if owner = R then
                 (if simple then ownerVertexNumSimple v 1
                  else ownerVertexNumRight env owner origin)
               else Some v) = Some k'" ..
    then show ?thesis unfolding u using False by (intro exI [of _ k']) simp
  qed
qed


lemmas eval_defs =
  getCellVertex_def directionForVertexNum_def vertexNumForDirection_def vertexRotations_def
  ownerVertexNumLeft_def ownerVertexNumRight_def ownerVertexNumSimple_def
  dirFace_def tableAt_def pentagonDirectionFaces_def neighborVertexes_def
  vertexNumToDirectionPent_def vertexNumToDirectionHex_def
  directionToVertexNumHex_def directionToVertexNumPent_def
  digit_defs const_defs DIRECTION_INDEX_OFFSET_def H3_NULL_def H3_VERTEX_MODE_def
  signed_modulo_int_def Let_def

text \<open>
  C2. When both directions at a corner slot of the origin are defined, and the two
  neighbours they lead to are valid cells, the vertex that \<open>getCellVertex\<close>
  returns is made from the owner, the smallest index among the origin and the two
  neighbours, and a vertex number; when the owner is the origin, the vertex number
  is the corner slot.
\<close>

theorem getCellVertex_owner:
  fixes env :: h3env and origin :: H3Index and v :: int and left right :: Direction
  defines "n \<equiv> (if h3IsPentagon env origin then NUM_PENT_VERTS else NUM_HEX_VERTS)"
    and "leftNeighbor \<equiv> fst (h3NeighborRotations env origin left 0)"
    and "rightNeighbor \<equiv> fst (h3NeighborRotations env origin right 0)"
  defines "owner \<equiv> min origin (min leftNeighbor rightNeighbor)"
  assumes "directionForVertexNum env origin v = Some left"
    and "left \<noteq> INVALID_DIGIT"
    and "directionForVertexNum env origin ((v - 1 + n) smod n) = Some right"
    and "right \<noteq> INVALID_DIGIT"
    and "validCell env leftNeighbor"
    and "validCell env rightNeighbor"
  shows "\<exists>k. getCellVertex env origin v =
               Some (H3_SET_RESERVED_BITS env (H3_SET_MODE env owner H3_VERTEX_MODE) k) \<and>
             (owner = origin \<longrightarrow> k = v)"
  using assms(5-10)
  unfolding owner_def leftNeighbor_def rightNeighbor_def n_def
  by (intro getCellVertex_resolves [OF _ _ _ _ refl refl refl])

text \<open>
  The pentagon of the base cell 4 is the owner of its corner 1, between the base
  cells 15 and 12; the owner of its corner 0 is the base cell 3.
\<close>

theorem getCellVertex_owner_witness:
  "getCellVertex exEnv 0x8009fffffffffff 1 = Some 0x21009fffffffffff \<and>
   (\<exists>k. getCellVertex exEnv 0x8009fffffffffff 0 =
          Some (H3_SET_RESERVED_BITS exEnv
                 (H3_SET_MODE exEnv 0x8007fffffffffff H3_VERTEX_MODE) k))"
proof -
  have p: "h3IsPentagon exEnv 0x8009fffffffffff" by (simp add: ex_defs digit_defs)
  have d0: "directionForVertexNum exEnv 0x8009fffffffffff 0 = Some IJ_AXES_DIGIT"
    and d1: "directionForVertexNum exEnv 0x8009fffffffffff 1 = Some J_AXES_DIGIT"
    and d4: "directionForVertexNum exEnv 0x8009fffffffffff 4 = Some I_AXES_DIGIT"
    by (simp_all add: eval_defs ex_defs)
  have "\<exists>k. getCellVertex exEnv 0x8009fffffffffff 1 =
               Some (H3_SET_RESERVED_BITS exEnv (H3_SET_MODE exEnv
                 (min 0x8009fffffffffff (min 0x801ffffffffffff 0x8019fffffffffff)) H3_VERTEX_MODE) k) \<and>
             (min 0x8009fffffffffff (min 0x801ffffffffffff 0x8019fffffffffff) = (0x8009fffffffffff::H3Index) \<longrightarrow> k = 1)"
    using getCellVertex_owner [of exEnv "0x8009fffffffffff" 1 J_AXES_DIGIT IJ_AXES_DIGIT] p d0 d1
      exEnv_validCell
    by (simp add: const_defs digit_defs signed_modulo_int_def exEnv_def exNeighbor_def)
  then have a: "getCellVertex exEnv 0x8009fffffffffff 1 = Some 0x21009fffffffffff"
    by (auto simp: exEnv_def H3_VERTEX_MODE_def)
  have b: "\<exists>k. getCellVertex exEnv 0x8009fffffffffff 0 =
               Some (H3_SET_RESERVED_BITS exEnv (H3_SET_MODE exEnv 0x8007fffffffffff H3_VERTEX_MODE) k)"
    using getCellVertex_owner [of exEnv "0x8009fffffffffff" 0 IJ_AXES_DIGIT I_AXES_DIGIT] p d0 d4
      exEnv_validCell
    by (simp add: const_defs digit_defs signed_modulo_int_def exEnv_def exNeighbor_def)
  from a b show ?thesis by (rule conjI)
qed


text \<open>
  C3. In the general case of \<open>getCellVertex\<close> (the owner is not the origin, and the
  owner or the origin is a pentagon or their faces differ), with \<open>k\<close> the vertex
  number of the direction from the owner to the origin: when the owner is the left
  neighbour, the vertex number is \<open>k + 1\<close>, and 0 exactly when \<open>k + 1\<close> is the
  number of corners of the owner; when the owner is the right neighbour and not the
  left one, it is \<open>k\<close>.
\<close>

theorem getCellVertex_general_case:
  fixes env :: h3env and origin :: H3Index and v :: int and left right :: Direction
  defines "n \<equiv> (if h3IsPentagon env origin then NUM_PENT_VERTS else NUM_HEX_VERTS)"
    and "leftNeighbor \<equiv> fst (h3NeighborRotations env origin left 0)"
    and "rightNeighbor \<equiv> fst (h3NeighborRotations env origin right 0)"
  defines "owner \<equiv> min origin (min leftNeighbor rightNeighbor)"
  defines "dir \<equiv> directionForNeighbor env owner origin"
    and "ownerNumVerts \<equiv> (if h3IsPentagon env owner then NUM_PENT_VERTS else NUM_HEX_VERTS)"
  assumes l: "directionForVertexNum env origin v = Some left" "left \<noteq> INVALID_DIGIT"
    and r: "directionForVertexNum env origin ((v - 1 + n) smod n) = Some right"
      "right \<noteq> INVALID_DIGIT"
    and other: "owner \<noteq> origin"
    and general: "h3IsPentagon env owner \<or> h3IsPentagon env origin \<or>
      face (h3ToFaceIjk env origin) \<noteq> face (h3ToFaceIjk env owner)"
    and valid: "validCell env owner"
  shows "\<exists>k. vertexNumForDirection env owner dir = Some k \<and>
           (owner = leftNeighbor \<longrightarrow>
              getCellVertex env origin v =
                Some (H3_SET_RESERVED_BITS env (H3_SET_MODE env owner H3_VERTEX_MODE)
                       (if k + 1 = ownerNumVerts then 0 else k + 1))) \<and>
           (owner = rightNeighbor \<and> owner \<noteq> leftNeighbor \<longrightarrow>
              getCellVertex env origin v =
                Some (H3_SET_RESERVED_BITS env (H3_SET_MODE env owner H3_VERTEX_MODE) k))"
proof -
  obtain k where k: "vertexNumForDirection env owner dir = Some k"
    using vertexNumForDirection_defined [OF valid] by blast
  define simple where "simple \<longleftrightarrow> \<not> h3IsPentagon env owner \<and> \<not> h3IsPentagon env origin \<and>
                  face (h3ToFaceIjk env origin) = face (h3ToFaceIjk env owner)"
  have ns: "\<not> simple" using general unfolding simple_def by blast
  note u = getCellVertex_unfold [OF l r [unfolded n_def]
      leftNeighbor_def [THEN meta_eq_to_obj_eq] rightNeighbor_def [THEN meta_eq_to_obj_eq]
      owner_def [THEN meta_eq_to_obj_eq] simple_def]
  have lk: "ownerVertexNumLeft env owner origin =
      Some (if k + 1 = ownerNumVerts then 0 else k + 1)"
    unfolding ownerNumVerts_def by (rule ownerVertexNumLeft_eq [OF k [unfolded dir_def]])
  have rk: "ownerVertexNumRight env owner origin = Some k"
    by (rule ownerVertexNumRight_eq [OF k [unfolded dir_def]])
  have left_case: "getCellVertex env origin v =
      Some (H3_SET_RESERVED_BITS env (H3_SET_MODE env owner H3_VERTEX_MODE)
             (if k + 1 = ownerNumVerts then 0 else k + 1))" if "owner = leftNeighbor"
    unfolding u using that other ns lk by simp
  have right_case: "getCellVertex env origin v =
      Some (H3_SET_RESERVED_BITS env (H3_SET_MODE env owner H3_VERTEX_MODE) k)"
    if "owner = rightNeighbor" "owner \<noteq> leftNeighbor"
    unfolding u using that other ns rk by simp
  from k left_case right_case show ?thesis by blast
qed

text \<open>
  The corners 3 and 4 of the pentagon of the base cell 4 belong to the base cell 0,
  its left neighbour at the corner 3 and its right neighbour at the corner 4; the
  direction from there to the pentagon starts at the corner 5.
\<close>

theorem getCellVertex_general_case_witness:
  "getCellVertex exEnv 0x8009fffffffffff 3 = Some 0x20001fffffffffff \<and>
   getCellVertex exEnv 0x8009fffffffffff 4 = Some 0x25001fffffffffff"
proof -
  have p: "h3IsPentagon exEnv 0x8009fffffffffff" "\<not> h3IsPentagon exEnv 0x8001fffffffffff"
    by (simp_all add: ex_defs digit_defs)
  have d2: "directionForVertexNum exEnv 0x8009fffffffffff 2 = Some JK_AXES_DIGIT"
    and d3: "directionForVertexNum exEnv 0x8009fffffffffff 3 = Some IK_AXES_DIGIT"
    and d4: "directionForVertexNum exEnv 0x8009fffffffffff 4 = Some I_AXES_DIGIT"
    by (simp_all add: eval_defs ex_defs)
  have k: "vertexNumForDirection exEnv 0x8001fffffffffff I_AXES_DIGIT = Some 5"
    by (simp add: eval_defs ex_defs)
  have a: "getCellVertex exEnv 0x8009fffffffffff 3 = Some 0x20001fffffffffff"
    using getCellVertex_general_case [of exEnv "0x8009fffffffffff" 3 IK_AXES_DIGIT JK_AXES_DIGIT]
      p d2 d3 k exEnv_validCell
    by (simp add: const_defs digit_defs signed_modulo_int_def exEnv_def exNeighbor_def
        H3_VERTEX_MODE_def)
  have b: "getCellVertex exEnv 0x8009fffffffffff 4 = Some 0x25001fffffffffff"
    using getCellVertex_general_case [of exEnv "0x8009fffffffffff" 4 I_AXES_DIGIT IK_AXES_DIGIT]
      p d3 d4 k exEnv_validCell
    by (simp add: const_defs digit_defs signed_modulo_int_def exEnv_def exNeighbor_def
        H3_VERTEX_MODE_def)
  from a b show ?thesis by (rule conjI)
qed

subsection \<open>All the vertexes of a cell\<close>

lemma prev_index_range:
  assumes "0 \<le> (v::int)" "v < n" "n = 5 \<or> n = 6"
  shows "0 \<le> (v - 1 + n) smod n \<and> (v - 1 + n) smod n < n"
proof -
  have "0 \<le> v - 1 + n" "0 < n" using assms by auto
  then have "(v - 1 + n) smod n = (v - 1 + n) mod n" by (rule smod_nonneg)
  then show ?thesis using \<open>0 < n\<close> by simp
qed

lemma getCellVertex_slot:
  assumes va: "validAround env origin" and nn: "vertexModeNonNull env"
    and v: "0 \<le> v" "v < (if h3IsPentagon env origin then NUM_PENT_VERTS else NUM_HEX_VERTS)"
  shows "\<exists>x. getCellVertex env origin v = Some x \<and> x \<noteq> H3_NULL"
proof -
  let ?n = "if h3IsPentagon env origin then NUM_PENT_VERTS else NUM_HEX_VERTS"
  have vo: "validCell env origin" and vn: "validCell env (fst (h3NeighborRotations env origin d 0))" for d
    using va by (simp_all add: validAround_def)
  obtain left where l: "directionForVertexNum env origin v = Some left" "left < INVALID_DIGIT"
    using direction_of_vertexNum [OF vo v] by blast
  have "?n = 5 \<or> ?n = 6" by (simp add: const_defs)
  from prev_index_range [OF v this]
  obtain right where r: "directionForVertexNum env origin ((v - 1 + ?n) smod ?n) = Some right"
      "right < INVALID_DIGIT"
    using direction_of_vertexNum [OF vo, of "(v - 1 + ?n) smod ?n"] by blast
  have ne: "left \<noteq> INVALID_DIGIT" "right \<noteq> INVALID_DIGIT" using l r by simp_all
  from getCellVertex_resolves [OF l(1) ne(1) r(1) ne(2) refl refl refl vn vn]
  obtain k where "getCellVertex env origin v =
      Some (H3_SET_RESERVED_BITS env (H3_SET_MODE env
        (min origin (min (fst (h3NeighborRotations env origin left 0))
                         (fst (h3NeighborRotations env origin right 0)))) H3_VERTEX_MODE) k)"
    by blast
  then show ?thesis using nn by (simp add: vertexModeNonNull_def)
qed

lemma getCellVertex_pent_slot5:
  assumes "h3IsPentagon env origin"
  shows "getCellVertex env origin 5 = Some H3_NULL"
proof -
  have "directionForVertexNum env origin 5 = Some INVALID_DIGIT"
    using assms by (simp add: directionForVertexNum_def const_defs)
  then show ?thesis by (simp add: getCellVertex_def Let_def)
qed

lemma fillVertexes_result:
  assumes "\<forall>i \<in> set slots. i < length vertexes \<and> (\<exists>x. getCellVertex env origin (int i) = Some x)"
  shows "\<exists>out. fillVertexes env origin slots vertexes = Some out \<and>
           length out = length vertexes \<and>
           (\<forall>i < length vertexes. out ! i =
              (if i \<in> set slots then the (getCellVertex env origin (int i)) else vertexes ! i))"
  using assms
proof (induction slots arbitrary: vertexes)
  case Nil
  then show ?case by simp
next
  case (Cons s slots)
  from Cons.prems obtain x where x: "getCellVertex env origin (int s) = Some x"
    and s: "s < length vertexes" by auto
  have "\<forall>i \<in> set slots. i < length (vertexes[s := x]) \<and>
      (\<exists>x. getCellVertex env origin (int i) = Some x)"
    using Cons.prems by simp
  from Cons.IH [OF this] obtain out where
    out: "fillVertexes env origin slots (vertexes[s := x]) = Some out"
      "length out = length vertexes"
      "\<forall>i < length vertexes. out ! i =
         (if i \<in> set slots then the (getCellVertex env origin (int i))
          else (vertexes[s := x]) ! i)"
    by auto
  have "fillVertexes env origin (s # slots) vertexes = Some out"
    using x s out(1) by simp
  moreover have "\<forall>i < length vertexes. out ! i =
      (if i \<in> set (s # slots) then the (getCellVertex env origin (int i)) else vertexes ! i)"
    using out(3) x by (auto simp: nth_list_update)
  ultimately show ?case using out(2) by blast
qed

lemma slots_upt: "set [0 ..< nat NUM_HEX_VERTS] = {0, 1, 2, 3, 4, 5}"
  by (auto simp: NUM_HEX_VERTS_def)

text \<open>
  C5. For a valid cell with valid neighbours, in an environment whose vertex
  identities are not null, \<open>getCellVertexes\<close> fills the six slots of the array:
  on a pentagon the slots 0..4 are not \<open>H3_NULL\<close> and the slot 5 is \<open>H3_NULL\<close>,
  on a hexagon none of the six slots is \<open>H3_NULL\<close>.
\<close>

theorem getCellVertexes_slots:
  assumes va: "validAround env origin" and nn: "vertexModeNonNull env"
    and len: "6 \<le> length vertexes"
  shows "\<exists>out. getCellVertexes env origin vertexes = Some out \<and>
           length out = length vertexes \<and>
           (if h3IsPentagon env origin
            then (\<forall>i < 5. out ! i \<noteq> H3_NULL) \<and> out ! 5 = H3_NULL
            else (\<forall>i < 6. out ! i \<noteq> H3_NULL))"
proof -
  let ?n = "if h3IsPentagon env origin then NUM_PENT_VERTS else NUM_HEX_VERTS"
  have slot: "\<exists>x. getCellVertex env origin (int i) = Some x \<and> x \<noteq> H3_NULL" if "int i < ?n" for i
    using getCellVertex_slot [OF va nn _ that] by simp
  have defined: "\<exists>x. getCellVertex env origin (int i) = Some x" if "i < 6" for i
  proof (cases "int i < ?n")
    case True
    then show ?thesis using slot by blast
  next
    case False
    then have "h3IsPentagon env origin \<and> i = 5" using that by (auto simp: const_defs split: if_splits)
    then show ?thesis using getCellVertex_pent_slot5 by auto
  qed
  have "\<forall>i \<in> set [0 ..< nat NUM_HEX_VERTS]. i < length vertexes \<and>
      (\<exists>x. getCellVertex env origin (int i) = Some x)"
  proof
    fix i assume "i \<in> set [0 ..< nat NUM_HEX_VERTS]"
    then have i: "i < 6" by (simp add: NUM_HEX_VERTS_def)
    then have "i < length vertexes" using len by simp
    with defined [OF i] show "i < length vertexes \<and>
        (\<exists>x. getCellVertex env origin (int i) = Some x)" by simp
  qed
  from fillVertexes_result [OF this] obtain out where
    out: "getCellVertexes env origin vertexes = Some out" "length out = length vertexes"
      "\<forall>i < length vertexes. out ! i =
         (if i \<in> {0, 1, 2, 3, 4, 5} then the (getCellVertex env origin (int i))
          else vertexes ! i)"
    unfolding getCellVertexes_def slots_upt by blast
  have at: "out ! i = the (getCellVertex env origin (int i))" if "i < 6" for i
    using out(3) len that by auto
  have "(if h3IsPentagon env origin
            then (\<forall>i < 5. out ! i \<noteq> H3_NULL) \<and> out ! 5 = H3_NULL
            else (\<forall>i < 6. out ! i \<noteq> H3_NULL))"
  proof (cases "h3IsPentagon env origin")
    case True
    have "out ! i \<noteq> H3_NULL" if "i < 5" for i
      using slot [of i] at [of i] that True by (auto simp: const_defs)
    moreover have "out ! 5 = H3_NULL"
      using at [of 5] getCellVertex_pent_slot5 [OF True] by simp
    ultimately show ?thesis using True by simp
  next
    case False
    have "out ! i \<noteq> H3_NULL" if "i < 6" for i
      using slot [of i] at [of i] that False by (auto simp: const_defs)
    then show ?thesis using False by simp
  qed
  with out(1,2) show ?thesis by blast
qed


lemma exEnv_validAround: "validAround exEnv c"
  by (simp add: validAround_def exEnv_validCell)

lemma exEnv_vertexModeNonNull: "vertexModeNonNull exEnv"
proof -
  have "or (and (or (and h (not (push_bit 59 15))) (push_bit 59 (word_of_int 4)))
               (not (push_bit 56 7))) (push_bit 56 (word_of_int n)) \<noteq> (0::64 word)" for h n
  proof -
    have "bit (or (and (or (and h (not (push_bit 59 15))) (push_bit 59 (word_of_int 4)))
               (not (push_bit 56 7))) (push_bit 56 (word_of_int n)) :: 64 word) 61"
      by (simp add: bit_simps)
    then show ?thesis by auto
  qed
  then show ?thesis
    by (simp add: vertexModeNonNull_def exEnv_def H3_VERTEX_MODE_def H3_NULL_def)
qed

text \<open>
  The vertexes of the pentagon of the base cell 4, and those of the hexagon of the
  base cell 0.
\<close>

theorem getCellVertexes_slots_witness:
  "getCellVertexes exEnv 0x8009fffffffffff [0, 0, 0, 0, 0, 0] =
     Some [0x22007fffffffffff, 0x21009fffffffffff, 0x22009fffffffffff,
           0x20001fffffffffff, 0x25001fffffffffff, H3_NULL] \<and>
   (\<exists>out. getCellVertexes exEnv 0x8001fffffffffff [0, 0, 0, 0, 0, 0] = Some out \<and>
      length out = 6 \<and> out ! 5 \<noteq> H3_NULL)"
proof -
  have p: "h3IsPentagon exEnv 0x8009fffffffffff" "\<not> h3IsPentagon exEnv 0x8001fffffffffff"
    by (simp_all add: ex_defs digit_defs)
  have "getCellVertex exEnv 0x8009fffffffffff 0 = Some 0x22007fffffffffff"
    and "getCellVertex exEnv 0x8009fffffffffff 1 = Some 0x21009fffffffffff"
    and "getCellVertex exEnv 0x8009fffffffffff 2 = Some 0x22009fffffffffff"
    and "getCellVertex exEnv 0x8009fffffffffff 3 = Some 0x20001fffffffffff"
    and "getCellVertex exEnv 0x8009fffffffffff 4 = Some 0x25001fffffffffff"
    and "getCellVertex exEnv 0x8009fffffffffff 5 = Some H3_NULL"
    by (simp_all add: eval_defs ex_defs)
  then have ev: "getCellVertexes exEnv 0x8009fffffffffff [0, 0, 0, 0, 0, 0] =
     Some [0x22007fffffffffff, 0x21009fffffffffff, 0x22009fffffffffff,
           0x20001fffffffffff, 0x25001fffffffffff, H3_NULL]"
    by (simp add: getCellVertexes_def NUM_HEX_VERTS_def upt_conv_Cons)
  from getCellVertexes_slots [OF exEnv_validAround exEnv_vertexModeNonNull,
      of "[0, 0, 0, 0, 0, 0]" "0x8009fffffffffff"] p(1) ev
  have a: "getCellVertexes exEnv 0x8009fffffffffff [0, 0, 0, 0, 0, 0] =
     Some [0x22007fffffffffff, 0x21009fffffffffff, 0x22009fffffffffff,
           0x20001fffffffffff, 0x25001fffffffffff, H3_NULL]"
    by simp
  from getCellVertexes_slots [OF exEnv_validAround exEnv_vertexModeNonNull,
      of "[0, 0, 0, 0, 0, 0]" "0x8001fffffffffff"] p(2)
  have b: "\<exists>out. getCellVertexes exEnv 0x8001fffffffffff [0, 0, 0, 0, 0, 0] = Some out \<and>
      length out = 6 \<and> out ! 5 \<noteq> H3_NULL"
    by auto
  from a b show ?thesis by (rule conjI)
qed

subsection \<open>The table of the simple case\<close>

lemma same_orientation_tables:
  assumes "v \<in> {0, 1, 2, 3, 4, 5::int}" "r \<in> {0, 1, 2, 3, 4, 5::int}"
  shows "\<exists>left n. tableAt vertexNumToDirectionHex ((v + r) smod NUM_HEX_VERTS) = Some left \<and>
           left \<noteq> CENTER_DIGIT \<and> left < INVALID_DIGIT \<and>
           7 - left \<noteq> CENTER_DIGIT \<and> 7 - left < INVALID_DIGIT \<and>
           tableAt directionToVertexNumHex (int (7 - left)) = Some n \<and>
           (n + NUM_HEX_VERTS - r) smod NUM_HEX_VERTS = (v + 3) mod 6"
  using assms
  by (auto simp: tableAt_def vertexNumToDirectionHex_def directionToVertexNumHex_def
      digit_defs const_defs signed_modulo_int_def)

text \<open>
  Two hexagons of the same orientation: the rotations of the owner are those of the
  origin, and the direction from the owner back to the origin is the digit opposite
  to the direction from the origin to the owner, \<open>7 - d\<close>. The owner then has
  the common edge at the opposite vertex number.
\<close>

lemma opposite_edge:
  assumes valid: "validCell env origin"
    and hex: "\<not> h3IsPentagon env origin" "\<not> h3IsPentagon env owner"
    and rot: "vertexRotations env owner True = vertexRotations env origin True"
    and v: "0 \<le> v" "v \<le> 5"
    and d: "directionForVertexNum env origin v = Some d"
  shows "vertexNumForDirection env owner (7 - d) = Some ((v + 3) mod 6)"
proof -
  obtain r where r: "vertexRotations env origin True = Some r" "0 \<le> r" "r \<le> 5"
    using vertexRotations_range [OF valid] by blast
  have rs: "r \<in> {0, 1, 2, 3, 4, 5}" using r by (intro int_cases6)
  have vs: "v \<in> {0, 1, 2, 3, 4, 5}" using v by (intro int_cases6)
  from same_orientation_tables [OF vs rs] obtain left n where
    t: "tableAt vertexNumToDirectionHex ((v + r) smod NUM_HEX_VERTS) = Some left"
       "7 - left \<noteq> CENTER_DIGIT" "7 - left < INVALID_DIGIT"
       "tableAt directionToVertexNumHex (int (7 - left)) = Some n"
       "(n + NUM_HEX_VERTS - r) smod NUM_HEX_VERTS = (v + 3) mod 6"
    by blast
  have "directionForVertexNum env origin v = Some left"
    using hex v r t by (simp add: directionForVertexNum_def const_defs)
  with d have "d = left" by simp
  then show ?thesis
    using hex rot r t by (simp add: vertexNumForDirection_def)
qed

text \<open>
  For such an owner the general path of \<open>getCellVertex\<close> gives the vertex number
  of the table \<open>neighborVertexes\<close>, in its left and in its right column.
\<close>

lemma fast_path_same_orientation:
  assumes valid: "validCell env origin"
    and hex: "\<not> h3IsPentagon env origin" "\<not> h3IsPentagon env owner"
    and rot: "vertexRotations env owner True = vertexRotations env origin True"
    and v: "0 \<le> v" "v \<le> 5"
    and l: "directionForVertexNum env origin v = Some left"
    and r: "directionForVertexNum env origin ((v - 1 + NUM_HEX_VERTS) smod NUM_HEX_VERTS) = Some right"
  shows "directionForNeighbor env owner origin = 7 - left \<Longrightarrow>
           ownerVertexNumLeft env owner origin = ownerVertexNumSimple v 0"
    and "directionForNeighbor env owner origin = 7 - right \<Longrightarrow>
           ownerVertexNumRight env owner origin = ownerVertexNumSimple v 1"
proof -
  have vs: "v \<in> {0, 1, 2, 3, 4, 5}" using v by (intro int_cases6)
  {
    assume opp: "directionForNeighbor env owner origin = 7 - left"
    have k: "vertexNumForDirection env owner (directionForNeighbor env owner origin) =
        Some ((v + 3) mod 6)"
      unfolding opp by (rule opposite_edge [OF valid hex rot v l])
    have "(if (v + 3) mod 6 + 1 = NUM_HEX_VERTS then 0 else (v + 3) mod 6 + 1) = (v + 4) mod 6"
      using vs by (auto simp: NUM_HEX_VERTS_def)
    then show "ownerVertexNumLeft env owner origin = ownerVertexNumSimple v 0"
      using ownerVertexNumLeft_eq [OF k] hex ownerVertexNumSimple_defined(1) [OF v] by simp
  }
  {
    assume opp: "directionForNeighbor env owner origin = 7 - right"
    have p: "0 \<le> (v - 1 + NUM_HEX_VERTS) smod NUM_HEX_VERTS"
        "(v - 1 + NUM_HEX_VERTS) smod NUM_HEX_VERTS \<le> 5"
      using vs by (auto simp: NUM_HEX_VERTS_def signed_modulo_int_def)
    have k: "vertexNumForDirection env owner (directionForNeighbor env owner origin) =
        Some (((v - 1 + NUM_HEX_VERTS) smod NUM_HEX_VERTS + 3) mod 6)"
      unfolding opp by (rule opposite_edge [OF valid hex rot p r])
    have "((v - 1 + NUM_HEX_VERTS) smod NUM_HEX_VERTS + 3) mod 6 = (v + 2) mod 6"
      using vs by (auto simp: NUM_HEX_VERTS_def signed_modulo_int_def)
    then show "ownerVertexNumRight env owner origin = ownerVertexNumSimple v 1"
      using ownerVertexNumRight_eq [OF k] ownerVertexNumSimple_defined(2) [OF v] by simp
  }
qed

end
